theory Spec2Isabelle
  imports Main "HOL-Library.Word" "HOL-Library.Monad_Syntax"
begin

unbundle bit_operations_syntax

section \<open>The explicit free list allocator of mm.c\<close>

text \<open>
  The allocator works on raw memory through 64-bit words: headers, footers and the two
  link pointers of a free block are all \<open>word_t\<close> cells, and block pointers are byte
  addresses. Sizes are \<open>size_t\<close>, so every sum and difference below wraps modulo
  \<open>2 ^ 64\<close>, as in the C program.
\<close>

type_synonym word_t = "64 word"

subsection \<open>Program state\<close>

text \<open>
  The state is the memory together with the heap provider's three pointers and the two
  global variables of mm.c (\<open>heap_start\<close> and \<open>free_list_head\<close>, both \<open>NULL\<close>,
  that is 0, before \<open>mm_init\<close>).
\<close>

record heap =
  mem :: "word_t \<Rightarrow> word_t"
  mem_start_brk :: word_t
  mem_brk :: word_t
  mem_max_addr :: word_t
  heap_start :: word_t
  free_list_head :: word_t

text \<open>
  A memory access of the C program is defined only inside the region obtained from the
  heap provider. \<open>load\<close> and \<open>store\<close> return \<open>None\<close> for an access outside
  \<open>[mem_start_brk, mem_brk)\<close> or one that is not on a word boundary of the region: this
  is where the C program dereferences \<open>NULL\<close> or a wild pointer. \<open>None\<close> as the result of
  a function below therefore means that the call does not return normally.
\<close>

definition off :: "heap \<Rightarrow> word_t \<Rightarrow> nat" where
  "off st a = unat (a - mem_start_brk st)"

definition in_heap :: "heap \<Rightarrow> word_t \<Rightarrow> bool" where
  "in_heap st a \<longleftrightarrow> off st a mod 8 = 0 \<and> off st a + 8 \<le> off st (mem_brk st)"

definition load :: "heap \<Rightarrow> word_t \<Rightarrow> word_t option" where
  "load st a = (if in_heap st a then Some (mem st a) else None)"

definition store :: "heap \<Rightarrow> word_t \<Rightarrow> word_t \<Rightarrow> heap option" where
  "store st a v = (if in_heap st a then Some (st\<lparr>mem := (mem st)(a := v)\<rparr>) else None)"

text \<open>
  Modelled from the spec: the heap provider (memlib's \<open>mem_sbrk\<close>) is not part of the
  sources. \<open>heap_extend(n)\<close> returns the prior top of the heap and grows the heap by
  \<open>n\<close> bytes, or fails; the provider refuses when the request does not fit below
  \<open>mem_max_addr\<close>, and the failure value is \<open>(void *) -1\<close>.
\<close>

definition mem_sbrk :: "heap \<Rightarrow> word_t \<Rightarrow> heap \<times> word_t" where
  "mem_sbrk st incr =
     (if unat (mem_max_addr st - mem_brk st) < unat incr then (st, - 1)
      else (st\<lparr>mem_brk := mem_brk st + incr\<rparr>, mem_brk st))"

subsection \<open>Constants\<close>

definition wsize :: word_t where "wsize = 8"
definition dsize :: word_t where "dsize = 2 * 8"
definition min_block_size :: word_t where "min_block_size = 4 * 8"
definition chunksize :: word_t where "chunksize = push_bit 12 1"
definition alloc_mask :: word_t where "alloc_mask = 1"
definition size_mask :: word_t where "size_mask = NOT 15"

subsection \<open>Bit manipulation and pointer arithmetic\<close>

definition max_sz :: "word_t \<Rightarrow> word_t \<Rightarrow> word_t" where
  "max_sz x y = (if x > y then x else y)"

definition round_up :: "word_t \<Rightarrow> word_t \<Rightarrow> word_t" where
  "round_up sz n = n * ((sz + (n - 1)) div n)"

definition pack :: "word_t \<Rightarrow> bool \<Rightarrow> word_t" where
  "pack sz alloc = (if alloc then sz OR alloc_mask else sz)"

definition extract_size :: "word_t \<Rightarrow> word_t" where
  "extract_size w = w AND size_mask"

definition extract_alloc :: "word_t \<Rightarrow> bool" where
  "extract_alloc w \<longleftrightarrow> w AND alloc_mask \<noteq> 0"

text \<open>
  A \<open>block_t\<close> has its header at offset 0 and the payload union at offset 8; the union
  holds \<open>links.prev\<close> at offset 8 and \<open>links.next\<close> at offset 16 of the block.
\<close>

definition links_prev :: "word_t \<Rightarrow> word_t" where
  "links_prev block = block + 8"

definition links_next :: "word_t \<Rightarrow> word_t" where
  "links_next block = block + 16"

definition get_size :: "heap \<Rightarrow> word_t \<Rightarrow> word_t option" where
  "get_size st block = do { h \<leftarrow> load st block; Some (extract_size h) }"

definition get_alloc :: "heap \<Rightarrow> word_t \<Rightarrow> bool option" where
  "get_alloc st block = do { h \<leftarrow> load st block; Some (extract_alloc h) }"

definition write_header :: "heap \<Rightarrow> word_t \<Rightarrow> word_t \<Rightarrow> bool \<Rightarrow> heap option" where
  "write_header st block sz alloc = store st block (pack sz alloc)"

definition header_to_payload :: "word_t \<Rightarrow> word_t" where
  "header_to_payload block = block + 8"

definition payload_to_header :: "word_t \<Rightarrow> word_t" where
  "payload_to_header bp = bp - 8"

definition header_to_footer :: "heap \<Rightarrow> word_t \<Rightarrow> word_t option" where
  "header_to_footer st block =
     do { s \<leftarrow> get_size st block; Some (header_to_payload block + s - dsize) }"

definition write_footer :: "heap \<Rightarrow> word_t \<Rightarrow> word_t \<Rightarrow> bool \<Rightarrow> heap option" where
  "write_footer st block sz alloc =
     do { footerp \<leftarrow> header_to_footer st block; store st footerp (pack sz alloc) }"

definition find_next :: "heap \<Rightarrow> word_t \<Rightarrow> word_t option" where
  "find_next st block = do { s \<leftarrow> get_size st block; Some (block + s) }"

definition find_prev_footer :: "word_t \<Rightarrow> word_t" where
  "find_prev_footer block = block - 8"

definition find_prev :: "heap \<Rightarrow> word_t \<Rightarrow> word_t option" where
  "find_prev st block =
     do { f \<leftarrow> load st (find_prev_footer block); Some (block - extract_size f) }"

subsection \<open>The free list\<close>

definition insert_block :: "heap \<Rightarrow> word_t \<Rightarrow> heap option" where
  "insert_block st free_block =
     (if free_list_head st = 0 then
        do {
          let st1 = st\<lparr>free_list_head := free_block\<rparr>;
          st2 \<leftarrow> store st1 (links_prev (free_list_head st1)) 0;
          store st2 (links_next (free_list_head st2)) 0
        }
      else
        do {
          st1 \<leftarrow> store st (links_prev free_block) 0;
          st2 \<leftarrow> store st1 (links_next free_block) (free_list_head st1);
          st3 \<leftarrow> store st2 (links_prev (free_list_head st2)) free_block;
          Some (st3\<lparr>free_list_head := free_block\<rparr>)
        })"

definition remove_block :: "heap \<Rightarrow> word_t \<Rightarrow> heap option" where
  "remove_block st free_block =
     do {
       prev_block \<leftarrow> load st (links_prev free_block);
       next_block \<leftarrow> load st (links_next free_block);
       if free_list_head st = 0 then Some st
       else if prev_block = 0 \<and> next_block = 0 then Some (st\<lparr>free_list_head := 0\<rparr>)
       else if prev_block = 0 \<and> next_block \<noteq> 0 then
         do {
           let st1 = st\<lparr>free_list_head := next_block\<rparr>;
           store st1 (links_prev (free_list_head st1)) 0
         }
       else if next_block = 0 \<and> prev_block \<noteq> 0 then
         store st (links_next prev_block) 0
       else if prev_block \<noteq> 0 \<and> next_block \<noteq> 0 then
         do {
           st1 \<leftarrow> store st (links_next prev_block) next_block;
           store st1 (links_prev next_block) prev_block
         }
       else Some st
     }"

text \<open>
  The scan of \<open>find_fit\<close> follows \<open>next\<close> links until it meets \<open>NULL\<close>; on a cyclic list
  it does not return, which is the value \<open>None\<close>.
\<close>

partial_function (option) find_fit_from :: "heap \<Rightarrow> word_t \<Rightarrow> word_t \<Rightarrow> word_t option" where
  "find_fit_from st asize ptr =
     (if ptr = 0 then Some 0
      else do {
        s \<leftarrow> get_size st ptr;
        if s \<ge> asize then Some ptr
        else do { nxt \<leftarrow> load st (links_next ptr); find_fit_from st asize nxt }
      })"

declare find_fit_from.simps [code]

definition find_fit :: "heap \<Rightarrow> word_t \<Rightarrow> word_t option" where
  "find_fit st asize = find_fit_from st asize (free_list_head st)"

subsection \<open>Coalescing, splitting and heap extension\<close>

definition coalesce_block :: "heap \<Rightarrow> word_t \<Rightarrow> (heap \<times> word_t) option" where
  "coalesce_block st block =
     do {
       sz \<leftarrow> get_size st block;
       pf \<leftarrow> load st (find_prev_footer block);
       let prev_alloc = extract_alloc pf;
       nb \<leftarrow> find_next st block;
       next_alloc \<leftarrow> get_alloc st nb;
       prev_block \<leftarrow> find_prev st block;
       next_block \<leftarrow> find_next st block;
       if prev_alloc \<and> \<not> next_alloc then
         do {
           ns \<leftarrow> get_size st next_block;
           let sz = sz + ns;
           st1 \<leftarrow> remove_block st next_block;
           st2 \<leftarrow> write_header st1 block sz False;
           st3 \<leftarrow> write_footer st2 block sz False;
           st4 \<leftarrow> insert_block st3 block;
           Some (st4, block)
         }
       else if \<not> prev_alloc \<and> next_alloc then
         do {
           ps \<leftarrow> get_size st prev_block;
           let sz = sz + ps;
           st1 \<leftarrow> remove_block st prev_block;
           st2 \<leftarrow> write_header st1 prev_block sz False;
           st3 \<leftarrow> write_footer st2 prev_block sz False;
           st4 \<leftarrow> insert_block st3 prev_block;
           Some (st4, prev_block)
         }
       else if \<not> prev_alloc \<and> \<not> next_alloc then
         do {
           ps \<leftarrow> get_size st prev_block;
           ns \<leftarrow> get_size st next_block;
           let sz = sz + (ps + ns);
           st1 \<leftarrow> remove_block st prev_block;
           st2 \<leftarrow> remove_block st1 next_block;
           st3 \<leftarrow> write_header st2 prev_block sz False;
           st4 \<leftarrow> write_footer st3 prev_block sz False;
           st5 \<leftarrow> insert_block st4 prev_block;
           Some (st5, prev_block)
         }
       else
         do {
           st1 \<leftarrow> write_header st block sz False;
           st2 \<leftarrow> write_footer st1 block sz False;
           st3 \<leftarrow> insert_block st2 block;
           Some (st3, block)
         }
     }"

definition split_block :: "heap \<Rightarrow> word_t \<Rightarrow> word_t \<Rightarrow> heap option" where
  "split_block st block asize =
     do {
       block_size \<leftarrow> get_size st block;
       if block_size - asize \<ge> min_block_size then
         do {
           st1 \<leftarrow> write_header st block asize True;
           st2 \<leftarrow> write_footer st1 block asize True;
           block_next \<leftarrow> find_next st2 block;
           st3 \<leftarrow> write_header st2 block_next (block_size - asize) False;
           st4 \<leftarrow> write_footer st3 block_next (block_size - asize) False;
           (st5, r) \<leftarrow> coalesce_block st4 block_next;
           Some st5
         }
       else Some st
     }"

text \<open>\<open>extend_heap\<close> returns \<open>NULL\<close> (0) when the provider refuses.\<close>

definition extend_heap :: "heap \<Rightarrow> word_t \<Rightarrow> (heap \<times> word_t) option" where
  "extend_heap st sz =
     (let sz = round_up sz dsize in
      case mem_sbrk st sz of (st0, bp) \<Rightarrow>
        if bp = - 1 then Some (st0, 0)
        else do {
          let block_start = payload_to_header bp;
          st1 \<leftarrow> write_header st0 block_start sz False;
          st2 \<leftarrow> write_footer st1 block_start sz False;
          epilogue \<leftarrow> find_next st2 block_start;
          st3 \<leftarrow> write_header st2 epilogue 0 True;
          coalesce_block st3 block_start
        })"

subsection \<open>Public operations\<close>

text \<open>\<open>mm_init\<close> returns 0 on success and -1 on failure.\<close>

definition mm_init :: "heap \<Rightarrow> (heap \<times> int) option" where
  "mm_init st =
     (case mem_sbrk st (2 * wsize) of (st0, start) \<Rightarrow>
        if start = - 1 then Some (st0, - 1)
        else do {
          st1 \<leftarrow> store st0 start (pack 0 True);
          st2 \<leftarrow> store st1 (start + wsize) (pack 0 True);
          let st3 = st2\<lparr>heap_start := start + wsize\<rparr>;
          (st4, free_block) \<leftarrow> extend_heap st3 chunksize;
          if free_block = 0 then Some (st4, - 1)
          else do {
            let st5 = st4\<lparr>free_list_head := free_block\<rparr>;
            st6 \<leftarrow> store st5 (links_prev (free_list_head st5)) 0;
            st7 \<leftarrow> store st6 (links_next (free_list_head st6)) 0;
            Some (st7, 0)
          }
        })"

text \<open>
  The size normalisation at the head of \<open>mm_malloc\<close>: the block size \<open>asize\<close> that is
  searched for and placed.
\<close>

definition adjusted_size :: "word_t \<Rightarrow> word_t" where
  "adjusted_size sz =
     (if sz \<le> dsize then min_block_size else round_up (sz + dsize) dsize)"

definition mm_malloc :: "heap \<Rightarrow> word_t \<Rightarrow> (heap \<times> word_t) option" where
  "mm_malloc st sz =
     (if sz = 0 then Some (st, 0)
      else do {
        let asize = adjusted_size sz;
        block \<leftarrow> find_fit st asize;
        (st1, block) \<leftarrow>
          (if block = 0 then
             do {
               let extendsize = max_sz chunksize asize;
               (st', r) \<leftarrow> extend_heap st extendsize;
               block' \<leftarrow> find_fit st' asize;
               Some (st', block')
             }
           else Some (st, block));
        newSize \<leftarrow> get_size st1 block;
        st2 \<leftarrow> remove_block st1 block;
        st3 \<leftarrow> write_header st2 block newSize True;
        st4 \<leftarrow> write_footer st3 block newSize True;
        st5 \<leftarrow> split_block st4 block asize;
        Some (st5, header_to_payload block)
      })"

definition mm_free :: "heap \<Rightarrow> word_t \<Rightarrow> heap option" where
  "mm_free st bp =
     (if bp = 0 then Some st
      else do {
        let block = payload_to_header bp;
        sz \<leftarrow> get_size st block;
        st1 \<leftarrow> write_header st block sz False;
        st2 \<leftarrow> write_footer st1 block sz False;
        (st3, r) \<leftarrow> coalesce_block st2 block;
        Some st3
      })"

subsection \<open>Vocabulary of the properties\<close>

text \<open>
  A fresh heap: the provider has handed out nothing yet, and both globals of mm.c still
  hold \<open>NULL\<close>.
\<close>

definition fresh_heap :: "(word_t \<Rightarrow> word_t) \<Rightarrow> word_t \<Rightarrow> word_t \<Rightarrow> heap" where
  "fresh_heap m lo mx =
     \<lparr>mem = m, mem_start_brk = lo, mem_brk = lo, mem_max_addr = mx, heap_start = 0,
      free_list_head = 0\<rparr>"

text \<open>
  Block addresses sit 8 bytes after a 16-byte boundary of the region (the prologue word
  comes first and every size is a multiple of 16). \<open>block_addr st b\<close>: \<open>b\<close> is such an
  address, and the header and the two link words of a block placed there lie inside the
  region.
\<close>

definition block_addr :: "heap \<Rightarrow> word_t \<Rightarrow> bool" where
  "block_addr st b \<longleftrightarrow> off st b mod 16 = 8 \<and> off st b + 24 \<le> off st (mem_brk st)"

text \<open>
  \<open>fl_seg st prv p xs q\<close>: following \<open>next\<close> links from \<open>p\<close> visits exactly the blocks
  \<open>xs\<close> and then arrives at \<open>q\<close>; every visited block is a non-null block address, and
  its \<open>prev\<close> link points to the block visited before it (\<open>prv\<close> for the first one). The
  free list of a state is the segment from \<open>free_list_head\<close> to \<open>NULL\<close>, with \<open>NULL\<close>
  before the head.
\<close>

primrec fl_seg :: "heap \<Rightarrow> word_t \<Rightarrow> word_t \<Rightarrow> word_t list \<Rightarrow> word_t \<Rightarrow> bool" where
  "fl_seg st prv p [] q \<longleftrightarrow> p = q"
| "fl_seg st prv p (x # xs) q \<longleftrightarrow>
     p = x \<and> x \<noteq> 0 \<and> block_addr st x \<and> load st (links_prev x) = Some prv \<and>
     (case load st (links_next x) of None \<Rightarrow> False | Some nxt \<Rightarrow> fl_seg st x nxt xs q)"

definition free_list :: "heap \<Rightarrow> word_t list \<Rightarrow> bool" where
  "free_list st xs \<longleftrightarrow> fl_seg st 0 (free_list_head st) xs 0"

text \<open>
  \<open>spliced st pv nx\<close> is the state in which the blocks \<open>pv\<close> and \<open>nx\<close> have been linked
  to each other: the \<open>next\<close> link of \<open>pv\<close> is \<open>nx\<close> and the \<open>prev\<close> link of \<open>nx\<close> is
  \<open>pv\<close>; a null \<open>pv\<close> or \<open>nx\<close> has no link to write, and with a null \<open>pv\<close> the block
  \<open>nx\<close> becomes the head of the list. Nothing else changes.
\<close>

definition spliced :: "heap \<Rightarrow> word_t \<Rightarrow> word_t \<Rightarrow> heap" where
  "spliced st pv nx =
     st\<lparr>mem := (let m1 = (if pv = 0 then mem st else (mem st)(links_next pv := nx))
                in if nx = 0 then m1 else m1(links_prev nx := pv)),
        free_list_head := (if pv = 0 then nx else free_list_head st)\<rparr>"

text \<open>
  \<open>is_block st b s a\<close>: at the block address \<open>b\<close> there is a block of \<open>s\<close> bytes with
  allocation flag \<open>a\<close>: \<open>s\<close> is a multiple of 16 and at least the minimum block size, the
  block and the header word after it lie inside the region, and the header at \<open>b\<close> and
  the footer in the last word of the block both encode \<open>s\<close> and \<open>a\<close>.
\<close>

definition is_block :: "heap \<Rightarrow> word_t \<Rightarrow> word_t \<Rightarrow> bool \<Rightarrow> bool" where
  "is_block st b s a \<longleftrightarrow>
     off st b mod 16 = 8 \<and> 32 \<le> unat s \<and> unat s mod 16 = 0 \<and>
     off st b + unat s + 8 \<le> off st (mem_brk st) \<and>
     load st b = Some (pack s a) \<and> load st (b + s - 8) = Some (pack s a)"

text \<open>
  \<open>outside st x lo hi\<close>: the first 32 bytes of the block at \<open>x\<close> (the minimum block) do
  not meet the bytes at the region offsets \<open>lo \<le> i < hi\<close>.
\<close>

definition outside :: "heap \<Rightarrow> word_t \<Rightarrow> nat \<Rightarrow> nat \<Rightarrow> bool" where
  "outside st x lo hi \<longleftrightarrow> off st x + 32 \<le> lo \<or> hi \<le> off st x"

text \<open>
  \<open>both_free st b\<close>: the block at \<open>b\<close> and the block that follows it in the heap are two
  non-sentinel blocks (their sizes are not 0) and both have the allocation bit clear.
\<close>

definition both_free :: "heap \<Rightarrow> word_t \<Rightarrow> bool" where
  "both_free st b \<longleftrightarrow>
     (case load st b of None \<Rightarrow> False
      | Some h \<Rightarrow> extract_size h \<noteq> 0 \<and> \<not> extract_alloc h \<and>
          (case load st (b + extract_size h) of None \<Rightarrow> False
           | Some h' \<Rightarrow> extract_size h' \<noteq> 0 \<and> \<not> extract_alloc h'))"

section \<open>Evaluation\<close>

lemma find_fit_from_unfold:
  "find_fit_from st asize ptr =
     (if ptr = 0 then Some 0
      else case get_size st ptr of None \<Rightarrow> None
        | Some s \<Rightarrow> if asize \<le> s then Some ptr
            else case load st (links_next ptr) of None \<Rightarrow> None
              | Some nxt \<Rightarrow> find_fit_from st asize nxt)"
  by (subst find_fit_from.simps) (simp split: option.split)

lemmas const_defs =
  wsize_def dsize_def min_block_size_def chunksize_def alloc_mask_def size_mask_def

lemmas ptr_defs =
  links_prev_def links_next_def header_to_payload_def payload_to_header_def
  find_prev_footer_def

lemmas bit_defs = max_sz_def round_up_def pack_def extract_size_def extract_alloc_def

lemmas mem_defs = off_def in_heap_def load_def store_def mem_sbrk_def

lemmas blk_defs =
  get_size_def get_alloc_def write_header_def write_footer_def header_to_footer_def
  find_next_def find_prev_def

lemmas op_defs =
  insert_block_def remove_block_def find_fit_def coalesce_block_def split_block_def
  extend_heap_def mm_init_def mm_malloc_def mm_free_def adjusted_size_def

lemmas eval_defs =
  fresh_heap_def const_defs ptr_defs bit_defs mem_defs blk_defs op_defs Let_def
  find_fit_from_unfold free_list_def both_free_def block_addr_def

section \<open>Offsets, header words and list segments\<close>

subsection \<open>Region offsets\<close>

lemma off_lt: "off st a < 2 ^ 64"
  unfolding off_def using unsigned_less [of "a - mem_start_brk st", where 'a = nat] by simp

lemma off_inj: "off st a = off st b \<longleftrightarrow> a = b"
proof
  assume "off st a = off st b"
  then have "a - mem_start_brk st = b - mem_start_brk st"
    unfolding off_def by (rule word_unat_eq_iff [THEN iffD2])
  then show "a = b" by simp
qed simp

lemma off_add: "off st a + unat k < 2 ^ 64 \<Longrightarrow> off st (a + k) = off st a + unat k"
proof -
  assume h: "off st a + unat k < 2 ^ 64"
  have e: "a + k - mem_start_brk st = (a - mem_start_brk st) + k" by simp
  show ?thesis
    unfolding off_def e using h unat_add_lem [of "a - mem_start_brk st" k]
    by (simp add: off_def)
qed

lemma off_sub: "unat k \<le> off st a \<Longrightarrow> off st (a - k) = off st a - unat k"
proof -
  assume h: "unat k \<le> off st a"
  have e: "a - k - mem_start_brk st = (a - mem_start_brk st) - k" by simp
  have "k \<le> a - mem_start_brk st"
    using h by (simp add: off_def word_le_nat_alt)
  then show ?thesis
    unfolding off_def e by (simp add: unat_sub)
qed

lemma off_add_mod: "off st (a + k) mod 16 = (off st a + unat k) mod 16"
proof -
  have e: "a + k - mem_start_brk st = (a - mem_start_brk st) + k" by simp
  have "unat ((a - mem_start_brk st) + k) = (unat (a - mem_start_brk st) + unat k) mod 2 ^ 64"
    by (simp add: unat_word_ariths)
  moreover have "(16::nat) dvd 2 ^ 64" by simp
  ultimately show ?thesis
    unfolding off_def e by (simp add: mod_mod_cancel)
qed


subsection \<open>Header and footer words\<close>

lemma low_bits:
  fixes s :: word_t
  assumes "unat s mod 16 = 0" "bit s n"
  shows "4 \<le> n"
proof (rule ccontr)
  assume "\<not> 4 \<le> n"
  then have n: "n < 4" by simp
  from assms(1) have "2 ^ 4 dvd unat s" by (simp add: dvd_eq_mod_eq_0)
  then have "s AND mask 4 = 0" by (simp only: and_mask_dvd_nat)
  then have "\<not> bit (s AND mask 4) n" by simp
  with assms(2) n show False by (simp add: bit_simps)
qed

lemma mask4: "(15 :: word_t) = mask 4"
  by (simp add: mask_eq_exp_minus_1)

lemma extract_size_pack: "unat s mod 16 = 0 \<Longrightarrow> extract_size (pack s a) = s"
proof (rule bit_eqI)
  fix n
  assume a: "unat s mod 16 = 0"
  show "bit (extract_size (pack s a)) n = bit s n"
    using low_bits [OF a, of n]
    by (auto simp: extract_size_def pack_def size_mask_def alloc_mask_def mask4 bit_simps
        dest: bit_imp_le_length)
qed

lemma extract_alloc_pack: "unat s mod 16 = 0 \<Longrightarrow> extract_alloc (pack s a) = a"
proof -
  assume a: "unat s mod 16 = 0"
  have "bit (pack s a AND 1) n \<longleftrightarrow> a \<and> n = 0" for n
    using low_bits [OF a, of n]
    by (auto simp: pack_def alloc_mask_def mask4 bit_simps)
  then have "pack s a AND 1 = (if a then 1 else 0)"
    by (intro bit_eqI) (auto simp: bit_simps)
  then show ?thesis
    by (simp add: extract_alloc_def alloc_mask_def)
qed

lemma extract_size_mod16: "unat (extract_size w) mod 16 = 0"
proof -
  have "extract_size w AND mask 4 = 0"
    by (rule bit_eqI) (auto simp: extract_size_def size_mask_def mask4 bit_simps)
  then have "2 ^ 4 dvd unat (extract_size w)" by (simp only: and_mask_dvd_nat)
  then show ?thesis by (simp add: dvd_eq_mod_eq_0)
qed


subsection \<open>Loads, stores and list segments\<close>

lemma store_Some_iff:
  "store st a v = Some st' \<longleftrightarrow> in_heap st a \<and> st' = st\<lparr>mem := (mem st)(a := v)\<rparr>"
  by (auto simp: store_def)

lemma load_Some_iff: "load st a = Some v \<longleftrightarrow> in_heap st a \<and> mem st a = v"
  by (auto simp: load_def)

lemma in_heap_region:
  "mem_start_brk st' = mem_start_brk st \<Longrightarrow> mem_brk st' = mem_brk st \<Longrightarrow>
   in_heap st' a = in_heap st a"
  by (simp add: in_heap_def off_def)

lemma block_addr_region:
  "mem_start_brk st' = mem_start_brk st \<Longrightarrow> mem_brk st' = mem_brk st \<Longrightarrow>
   block_addr st' a = block_addr st a"
  by (simp add: block_addr_def off_def)

lemma fl_seg_cong_mem:
  assumes "mem_start_brk st' = mem_start_brk st" "mem_brk st' = mem_brk st"
    and "\<forall>x\<in>set xs. mem st' (links_prev x) = mem st (links_prev x) \<and>
                     mem st' (links_next x) = mem st (links_next x)"
  shows "fl_seg st' prv p xs q = fl_seg st prv p xs q"
  using assms(3)
proof (induction xs arbitrary: prv p)
  case Nil
  show ?case by simp
next
  case (Cons x xs)
  have r: "\<And>a. in_heap st' a = in_heap st a" "block_addr st' x = block_addr st x"
    using assms(1,2) by (simp_all add: in_heap_def block_addr_def off_def)
  from Cons.prems have m: "mem st' (links_prev x) = mem st (links_prev x)"
      "mem st' (links_next x) = mem st (links_next x)"
    and rest: "\<forall>y\<in>set xs. mem st' (links_prev y) = mem st (links_prev y) \<and>
                     mem st' (links_next y) = mem st (links_next y)"
    by simp_all
  have l: "load st' (links_prev x) = load st (links_prev x)"
    "load st' (links_next x) = load st (links_next x)"
    by (simp_all add: load_def r m)
  show ?case
    unfolding fl_seg.simps l r by (simp add: Cons.IH [OF rest] split: option.split)
qed

lemma fl_seg_append:
  "fl_seg st prv p (ys @ zs) q \<longleftrightarrow>
     (\<exists>r. fl_seg st prv p ys r \<and> fl_seg st (last (prv # ys)) r zs q)"
  by (induction ys arbitrary: prv p) (auto split: option.splits)

lemma fl_seg_mem:
  "fl_seg st prv p xs q \<Longrightarrow> x \<in> set xs \<Longrightarrow>
   x \<noteq> 0 \<and> block_addr st x \<and> in_heap st (links_prev x) \<and> in_heap st (links_next x)"
  by (induction xs arbitrary: prv p) (auto simp: load_Some_iff split: option.splits)

lemma fl_seg_det:
  "fl_seg st prv p xs 0 \<Longrightarrow> fl_seg st prv' p ys 0 \<Longrightarrow> xs = ys"
proof (induction xs arbitrary: prv prv' p ys)
  case Nil
  then show ?case by (cases ys) auto
next
  case (Cons x xs)
  then show ?case by (cases ys) (auto split: option.splits)
qed

lemma fl_seg_distinct: "fl_seg st prv p xs 0 \<Longrightarrow> distinct xs"
proof (induction xs arbitrary: prv p)
  case Nil
  show ?case by simp
next
  case (Cons x xs)
  from Cons.prems obtain nxt where nxt: "fl_seg st x nxt xs 0"
    by (auto split: option.splits)
  have "x \<notin> set xs"
  proof
    assume "x \<in> set xs"
    then obtain as bs where xs: "xs = as @ x # bs" by (auto dest: split_list)
    from nxt obtain r where "fl_seg st (last (x # as)) r (x # bs) 0"
      unfolding xs fl_seg_append by blast
    then have "fl_seg st (last (x # as)) x (x # bs) 0" by simp
    moreover from Cons.prems have "fl_seg st prv x (x # xs) 0" by simp
    ultimately have "x # bs = x # xs" by (rule fl_seg_det)
    then show False by (simp add: xs)
  qed
  with Cons.IH [OF nxt] show ?case by simp
qed

lemma aligned_add8: "block_addr st x \<Longrightarrow> off st (x + 8) mod 16 = 0"
  using off_add_mod [of st x 8] by (simp add: block_addr_def mod_add_left_eq [symmetric])

lemma aligned_add16: "block_addr st x \<Longrightarrow> off st (x + 16) mod 16 = 8"
  using off_add_mod [of st x 16] by (simp add: block_addr_def)

lemma aligned_links:
  assumes "block_addr st x" "block_addr st y"
  shows "links_prev x \<noteq> links_next y" "links_next x \<noteq> links_prev y"
    "links_prev x \<noteq> y" "x \<noteq> links_prev y"
proof -
  have a: "off st (links_prev x) mod 16 = 0" "off st (links_next x) mod 16 = 8"
    "off st (links_prev y) mod 16 = 0" "off st (links_next y) mod 16 = 8"
    using assms by (simp_all add: links_prev_def links_next_def aligned_add8 aligned_add16)
  show "links_prev x \<noteq> links_next y" using a by auto
  show "links_next x \<noteq> links_prev y" using a by auto
  show "links_prev x \<noteq> y" using a assms by (auto simp: block_addr_def)
  show "x \<noteq> links_prev y" using a assms by (auto simp: block_addr_def)
qed

lemma links_inj [simp]:
  "links_prev x = links_prev y \<longleftrightarrow> x = y" "links_next x = links_next y \<longleftrightarrow> x = y"
  "links_prev x \<noteq> links_next x" "links_next x \<noteq> links_prev x"
  "links_prev x \<noteq> x" "links_next x \<noteq> x" "x \<noteq> links_prev x" "x \<noteq> links_next x"
  by (simp_all add: links_prev_def links_next_def)


lemma mem_spliced:
  "mem (spliced st pv nx) a =
     (if nx \<noteq> 0 \<and> a = links_prev nx then pv
      else if pv \<noteq> 0 \<and> a = links_next pv then nx else mem st a)"
  by (simp add: spliced_def Let_def)

lemma region_spliced [simp]:
  "mem_start_brk (spliced st pv nx) = mem_start_brk st"
  "mem_brk (spliced st pv nx) = mem_brk st"
  by (simp_all add: spliced_def)

lemma in_heap_spliced [simp]: "in_heap (spliced st pv nx) a = in_heap st a"
  by (simp add: in_heap_def off_def)

lemma block_addr_spliced [simp]: "block_addr (spliced st pv nx) a = block_addr st a"
  by (simp add: block_addr_def off_def)

lemma remove_block_spliced:
  assumes "free_list_head st \<noteq> 0"
    and "load st (links_prev b) = Some pv" "load st (links_next b) = Some nx"
    and "pv \<noteq> 0 \<longrightarrow> in_heap st (links_next pv)" "nx \<noteq> 0 \<longrightarrow> in_heap st (links_prev nx)"
  shows "remove_block st b = Some (spliced st pv nx)"
  using assms
  by (auto simp: remove_block_def spliced_def store_def Let_def in_heap_def off_def)

lemma fl_seg_spliced_right:
  assumes seg: "fl_seg st b nx zs 0"
    and pv: "pv \<noteq> 0 \<longrightarrow> block_addr st pv \<and> pv \<notin> set zs"
  shows "fl_seg (spliced st pv nx) pv nx zs 0"
proof (cases zs)
  case Nil
  with seg show ?thesis by simp
next
  case (Cons z zs')
  from seg Cons obtain n2 where z: "nx = z" "z \<noteq> 0" "block_addr st z"
      "load st (links_prev z) = Some b" "load st (links_next z) = Some n2"
    and rest: "fl_seg st z n2 zs' 0"
    by (auto split: option.splits)
  have d: "z \<notin> set zs'"
    using fl_seg_distinct [OF seg] Cons by simp
  have al: "\<forall>y\<in>set zs'. block_addr st y"
    using fl_seg_mem [OF rest] by blast
  have "fl_seg (spliced st pv nx) z n2 zs' 0 = fl_seg st z n2 zs' 0"
  proof (rule fl_seg_cong_mem)
    show "\<forall>x\<in>set zs'. mem (spliced st pv nx) (links_prev x) = mem st (links_prev x) \<and>
       mem (spliced st pv nx) (links_next x) = mem st (links_next x)"
      using d al pv z Cons by (auto simp: mem_spliced aligned_links)
  qed simp_all
  moreover have "load (spliced st pv nx) (links_prev z) = Some pv"
    using z by (simp add: load_Some_iff mem_spliced)
  moreover have "load (spliced st pv nx) (links_next z) = Some n2"
    using z pv Cons by (auto simp: load_Some_iff mem_spliced aligned_links)
  ultimately show ?thesis
    using z rest Cons by simp
qed

lemma fl_seg_spliced_left:
  assumes seg: "fl_seg st prv h ys b"
    and dist: "distinct ys"
    and nx: "nx \<noteq> 0 \<longrightarrow> block_addr st nx \<and> nx \<notin> set ys"
    and pv: "pv = last (0 # ys)"
    and nz: "0 \<notin> set ys"
  shows "fl_seg (spliced st pv nx) prv (if ys = [] then nx else h) ys nx"
proof (cases ys rule: rev_cases)
  case Nil
  then show ?thesis by simp
next
  case (snoc ys' l)
  from seg snoc have "fl_seg st prv h (ys' @ [l]) b" by simp
  then obtain r where
    left: "fl_seg st prv h ys' r" and l: "fl_seg st (last (prv # ys')) r [l] b"
    unfolding fl_seg_append by blast
  from l have l': "r = l" "l \<noteq> 0" "block_addr st l"
      "load st (links_prev l) = Some (last (prv # ys'))" "load st (links_next l) = Some b"
    by (auto split: option.splits)
  have pvl: "pv = l" using pv snoc by simp
  have d: "l \<notin> set ys'" using dist snoc by simp
  have al: "\<forall>y\<in>set ys'. block_addr st y"
    using fl_seg_mem [OF left] by blast
  have "fl_seg (spliced st pv nx) prv h ys' l = fl_seg st prv h ys' l"
  proof (rule fl_seg_cong_mem)
    show "\<forall>x\<in>set ys'. mem (spliced st pv nx) (links_prev x) = mem st (links_prev x) \<and>
       mem (spliced st pv nx) (links_next x) = mem st (links_next x)"
      using d al nx l' pvl snoc by (auto simp: mem_spliced aligned_links)
  qed simp_all
  moreover have "load (spliced st pv nx) (links_prev l) = Some (last (prv # ys'))"
    using l' nx snoc pvl by (auto simp: load_Some_iff mem_spliced aligned_links)
  moreover have "load (spliced st pv nx) (links_next l) = Some nx"
    using l' nx pvl by (auto simp: load_Some_iff mem_spliced aligned_links)
  ultimately have "fl_seg (spliced st pv nx) prv h (ys' @ [l]) nx"
    using l' left unfolding fl_seg_append by (intro exI [of _ l]) simp
  then show ?thesis
    using snoc by simp
qed


lemma free_list_head_spliced:
  "free_list_head (spliced st pv nx) = (if pv = 0 then nx else free_list_head st)"
  by (simp add: spliced_def)

section \<open>Scenarios on a fresh heap\<close>

text \<open>
  The scenarios run on the provider region \<open>[0x1000, 0x100000)\<close> with zeroed memory. After
  \<open>mm_init\<close> the prologue word is at \<open>0x1000\<close>, the single free block of 4096 bytes at
  \<open>0x1008\<close> and the epilogue header at \<open>0x2008\<close>.
\<close>

text \<open>
  C1 (failing run). The provider has room for the bootstrap and the first chunk only. A
  request of 5000 bytes finds no fit, \<open>extend_heap\<close> is refused and returns \<open>NULL\<close>
  leaving the state as it was, the second \<open>find_fit\<close> returns \<open>NULL\<close> again, and
  \<open>mm_malloc\<close> then reads the header of the \<open>NULL\<close> block: it does not return.
\<close>

theorem mm_malloc_refused_reads_null_block:
  "do { (s, r) \<leftarrow> mm_init (fresh_heap (\<lambda>_. 0) 0x1000 0x2010);
        Some (r, find_fit s (adjusted_size 5000),
              map_option (\<lambda>(s', b). (s' = s, b))
                (extend_heap s (max_sz chunksize (adjusted_size 5000))),
              get_size s 0, mm_malloc s 5000) }
   = Some (0, Some 0, Some (True, 0), None, None)"
  by (simp add: eval_defs)

text \<open>
  C2 (as stated, refuted). After \<open>mm_init\<close>, \<open>mm_malloc (4096 - 32 - 16)\<close> normalises the
  request to 4064 bytes, and the residue of 32 bytes is split off: the allocated block has
  size 4064, the free list holds the block at \<open>0x1FE8\<close> of size 32, and the following
  \<open>mm_malloc 16\<close> is served from that block without moving the top of the heap.
\<close>

theorem exact_fit_4048_splits:
  "do { (s, r) \<leftarrow> mm_init (fresh_heap (\<lambda>_. 0) 0x1000 0x100000);
        (s', p) \<leftarrow> mm_malloc s (4096 - 32 - 16);
        (s'', q) \<leftarrow> mm_malloc s' 16;
        Some (get_size s' (payload_to_header p), free_list s' [], free_list s' [0x1FE8],
              get_size s' 0x1FE8, q, mem_brk s'' = mem_brk s') }
   = Some (Some 4064, False, True, Some 32, 0x1FF0, True)"
  by (simp add: eval_defs)

text \<open>
  C2 (amended). After \<open>mm_init\<close> on any initial memory contents, \<open>mm_malloc (4096 - 16)\<close>
  takes the whole free block: the block keeps its size 4096 (no split), the free list is
  empty, no block fits a request of 16 bytes any more, and the following \<open>mm_malloc 16\<close>
  moves the top of the heap up by 4096 bytes and is served from the new chunk.
\<close>

theorem exact_fit_4080_no_split:
  "do { (s, r) \<leftarrow> mm_init (fresh_heap m 0x1000 0x100000);
        (s', p) \<leftarrow> mm_malloc s (4096 - 16);
        (s'', q) \<leftarrow> mm_malloc s' 16;
        Some (p, get_size s' (payload_to_header p), get_alloc s' (payload_to_header p),
              free_list s' [], find_fit s' (adjusted_size 16), mem_brk s', mem_brk s'', q) }
   = Some (0x1010, Some 4096, Some True, True, Some 0, 0x2010, 0x2010 + 4096, 0x2010)"
  by (simp add: eval_defs)

text \<open>
  C3 (as stated, refuted). After \<open>mm_init\<close> and \<open>mm_malloc 24\<close> the free list is the single
  block at \<open>0x1038\<close>, and its size is not \<open>4096 - 32\<close>.
\<close>

theorem fresh_alloc_24_remainder_is_not_4064:
  "do { (s, r) \<leftarrow> mm_init (fresh_heap (\<lambda>_. 0) 0x1000 0x100000);
        (s', p) \<leftarrow> mm_malloc s 24;
        Some (free_list s' [0x1038], get_size s' 0x1038 = Some (4096 - 32)) }
   = Some (True, False)"
  by (simp add: eval_defs)

text \<open>
  C3 (amended). After \<open>mm_init\<close> on any initial memory contents, \<open>mm_malloc 24\<close> returns the
  non-null payload pointer \<open>0x1010\<close> of a block of 48 bytes, and afterwards the free list
  contains exactly one block, whose size is \<open>4096 - 48\<close>.
\<close>

theorem fresh_alloc_24:
  "do { (s, r) \<leftarrow> mm_init (fresh_heap m 0x1000 0x100000);
        (s', p) \<leftarrow> mm_malloc s 24;
        Some (r, p, p \<noteq> 0, get_size s' (payload_to_header p), free_list s' [p + 40],
              get_size s' (p + 40)) }
   = Some (0, 0x1010, True, Some 48, True, Some (4096 - 48))"
  by (simp add: eval_defs)

text \<open>
  C7 (failing run). Three blocks of 32 bytes are allocated (\<open>a\<close>, \<open>f\<close>, \<open>n\<close>) and \<open>f\<close> is
  released. The request of \<open>2 ^ 64 - 17\<close> bytes is normalised to the block size 0, so
  \<open>mm_malloc\<close> hands out the free block of \<open>f\<close> once more (\<open>p = f\<close>) and leaves it free
  and linked. After \<open>a\<close> and \<open>p\<close> are released, the first block of the heap is free with
  size 96, and the block that follows it is free as well.
\<close>

theorem adjacent_free_blocks_after_oversize_request:
  "do { (s0, r) \<leftarrow> mm_init (fresh_heap (\<lambda>_. 0) 0x1000 0x100000);
        (s1, a) \<leftarrow> mm_malloc s0 16;
        (s2, f) \<leftarrow> mm_malloc s1 16;
        (s3, n) \<leftarrow> mm_malloc s2 16;
        s4 \<leftarrow> mm_free s3 f;
        (s5, p) \<leftarrow> mm_malloc s4 0xFFFFFFFFFFFFFFEF;
        s6 \<leftarrow> mm_free s5 a;
        s7 \<leftarrow> mm_free s6 p;
        Some (r, a, f, n, p, mem_brk s7, heap_start s7, get_size s7 (heap_start s7),
              both_free s7 (heap_start s7)) }
   = Some (0, 0x1010, 0x1030, 0x1050, 0x1030, 0x2010, 0x1008, Some 96, True)"
  by (simp add: eval_defs)

text \<open>
  C9 (failing run). On the initialised heap the request of \<open>2 ^ 64 - 17\<close> bytes returns
  the payload of the only free block and leaves that block at the head of the free list.
  Releasing the returned pointer inserts the block a second time: the free list is not
  empty, and the \<open>prev\<close> link of its head is the head itself, not \<open>NULL\<close>.
\<close>

theorem head_prev_link_not_null_after_oversize_request:
  "do { (s0, r) \<leftarrow> mm_init (fresh_heap (\<lambda>_. 0) 0x1000 0x100000);
        (s1, p) \<leftarrow> mm_malloc s0 0xFFFFFFFFFFFFFFEF;
        s2 \<leftarrow> mm_free s1 p;
        Some (r, p, mem_brk s2, free_list_head s2, load s2 (links_prev (free_list_head s2))) }
   = Some (0, 0x1010, 0x2010, 0x1008, Some 0x1008)"
  by (simp add: eval_defs)

section \<open>Removal from the free list\<close>

text \<open>
  C8. For every block \<open>b\<close> that is linked in the free list \<open>xs\<close>, \<open>remove_block\<close> returns
  the state \<open>spliced st pv nx\<close>, where \<open>pv\<close> and \<open>nx\<close> are the \<open>prev\<close> and \<open>next\<close> links
  of \<open>b\<close>: the two neighbours are linked to each other, the head becomes \<open>nx\<close> when \<open>b\<close>
  was the head (\<open>pv\<close> is null), and nothing else is written. The free list of the new
  state is \<open>xs\<close> without \<open>b\<close>, and the two link words of \<open>b\<close> still hold \<open>pv\<close> and \<open>nx\<close>.
\<close>

theorem remove_block_splices:
  assumes fl: "free_list st xs" and b: "b \<in> set xs"
  shows "\<exists>pv nx. load st (links_prev b) = Some pv \<and> load st (links_next b) = Some nx \<and>
           remove_block st b = Some (spliced st pv nx) \<and>
           free_list (spliced st pv nx) (remove1 b xs) \<and>
           load (spliced st pv nx) (links_prev b) = Some pv \<and>
           load (spliced st pv nx) (links_next b) = Some nx"
proof -
  from b obtain ys zs where xs: "xs = ys @ b # zs"
    by (auto dest: split_list)
  let ?h = "free_list_head st"
  from fl have seg: "fl_seg st 0 ?h (ys @ b # zs) 0"
    by (simp add: free_list_def xs)
  have dist: "distinct (ys @ b # zs)"
    using fl_seg_distinct [OF seg] .
  have mem: "\<And>x. x \<in> set (ys @ b # zs) \<Longrightarrow>
      x \<noteq> 0 \<and> block_addr st x \<and> in_heap st (links_prev x) \<and> in_heap st (links_next x)"
    using fl_seg_mem [OF seg] by blast
  define pv where "pv = last (0 # ys)"
  from seg obtain r where left: "fl_seg st 0 ?h ys r" and right: "fl_seg st pv r (b # zs) 0"
    unfolding fl_seg_append pv_def by blast
  from right obtain nx where r: "r = b" and bp: "load st (links_prev b) = Some pv"
    and bn: "load st (links_next b) = Some nx" and tail: "fl_seg st b nx zs 0"
    by (auto split: option.splits)
  have hnz: "?h \<noteq> 0"
    using seg by (cases ys) auto
  have pv_cases: "pv = 0 \<longleftrightarrow> ys = []"
    using mem [of "last ys"] by (auto simp: pv_def)
  have pv_in: "pv \<noteq> 0 \<Longrightarrow> pv \<in> set ys"
    using pv_cases by (auto simp: pv_def)
  have nx_in: "nx \<noteq> 0 \<Longrightarrow> nx \<in> set zs"
    using tail by (cases zs) (auto split: option.splits)
  have rm: "remove_block st b = Some (spliced st pv nx)"
  proof (rule remove_block_spliced [OF hnz bp bn])
    show "pv \<noteq> 0 \<longrightarrow> in_heap st (links_next pv)"
      using pv_in mem [of pv] by auto
    show "nx \<noteq> 0 \<longrightarrow> in_heap st (links_prev nx)"
      using nx_in mem [of nx] by auto
  qed
  have l: "fl_seg (spliced st pv nx) 0 (if ys = [] then nx else ?h) ys nx"
  proof (rule fl_seg_spliced_left [OF left [unfolded r]])
    show "distinct ys" using dist by simp
    show "nx \<noteq> 0 \<longrightarrow> block_addr st nx \<and> nx \<notin> set ys"
      using nx_in mem [of nx] dist by auto
    show "pv = last (0 # ys)" by (rule pv_def)
    show "0 \<notin> set ys" using mem [of 0] by auto
  qed
  have rt: "fl_seg (spliced st pv nx) pv nx zs 0"
  proof (rule fl_seg_spliced_right [OF tail])
    show "pv \<noteq> 0 \<longrightarrow> block_addr st pv \<and> pv \<notin> set zs"
      using pv_in mem [of pv] dist by auto
  qed
  have "fl_seg (spliced st pv nx) 0 (free_list_head (spliced st pv nx)) (ys @ zs) 0"
    unfolding fl_seg_append free_list_head_spliced pv_cases
    using l rt by (intro exI [of _ nx]) (simp add: pv_def)
  moreover have "remove1 b xs = ys @ zs"
    using dist by (simp add: xs remove1_append)
  ultimately have fl': "free_list (spliced st pv nx) (remove1 b xs)"
    by (simp add: free_list_def)
  have bal: "block_addr st b" using mem [of b] by simp
  have own1: "load (spliced st pv nx) (links_prev b) = Some pv"
    using bp nx_in pv_in dist mem [of pv] bal
    by (auto simp: load_Some_iff mem_spliced aligned_links)
  have own2: "load (spliced st pv nx) (links_next b) = Some nx"
    using bn nx_in pv_in dist mem [of nx] bal
    by (auto simp: load_Some_iff mem_spliced aligned_links)
  show ?thesis
    using bp bn rm fl' own1 own2 by blast
qed

end
